theory Spec2Isabelle
  imports Main "HOL-Library.Sublist"
begin

section \<open>Data model\<close>

text \<open>
  The build orchestrator of \<^verbatim>\<open>packages/nitro/src/build.ts\<close>. Strings are lists of
  characters. A middleware handler is either a filesystem path (a string) or an inline
  function, identified here by a number.
\<close>

datatype handle = HandlePath string | HandleInline nat

record server_middleware =
  route :: string
  handle :: handle

record output_dirs =
  dir :: string
  publicDir :: string
  serverDir :: string

text \<open>A command is \<^verbatim>\<open>undefined\<close> (\<open>None\<close>) or a string.\<close>

record commands =
  preview :: "string option"
  deploy :: "string option"

record nuxt_options =
  nuxt_buildDir :: string
  nuxt_serverDir :: string
  nuxt_dev :: bool

record rollup_config =
  rollup_output_dir :: string
  rollup_entryFileNames :: string

record nitro_context =
  preset :: string
  ctx_output :: output_dirs
  commands :: commands
  vfs :: "string \<rightharpoonup> string"
  middleware :: "server_middleware list"
  scannedMiddleware :: "server_middleware list"
  nuxt :: nuxt_options
  rollupConfig :: "rollup_config option"

record html_template =
  src :: string
  contents :: string
  dst :: string

section \<open>Effects and the environment\<close>

text \<open>
  Every call into a collaborator (console, filesystem, hooks, bundler, scanner) is
  recorded, in the order the calls are made, in a trace. A bundler watcher is identified
  by the number it was given when \<^verbatim>\<open>rollup.watch\<close> created it.
\<close>

datatype effect =
    ConsolaInfo "string list"
  | ConsolaStart "string list"
  | ConsolaSuccess "string list"
  | ConsolaError "string list"
  | ConsoleError string
  | EmptyDir string
  | ReadFile string
  | WriteFile string string
  | CallHook string
  | RollupRollup "rollup_config option"
  | BundleWrite rollup_config
  | PrintFSTree string
  | ScanMiddleware string
  | RollupWatch nat
  | WatcherClose nat

datatype error = JsError string

text \<open>
  The environment holds what the code imports and does not define: the path functions of
  \<^verbatim>\<open>pathe\<close>, \<^verbatim>\<open>genDynamicImport\<close> of \<^verbatim>\<open>knitwork\<close>, the helpers of
  \<^verbatim>\<open>./utils\<close> and \<^verbatim>\<open>./rollup/config\<close>, the working directory, the clock, the
  contents of files, the result of the middleware scanner and the \<^verbatim>\<open>nitro:document\<close>
  hook, which receives the template record and may rewrite it. \<open>throws\<close> decides, from
  the calls made so far and the call being made, whether that call fails and with which
  message.
\<close>

record env =
  hl :: "string \<Rightarrow> string"
  prettyPath :: "string \<Rightarrow> string"
  resolve :: "string \<Rightarrow> string \<Rightarrow> string"
  relative :: "string \<Rightarrow> string \<Rightarrow> string"
  join :: "string \<Rightarrow> string \<Rightarrow> string"
  genDynamicImport :: "string \<Rightarrow> string"
  serializeTemplate :: "string \<Rightarrow> string"
  getRollupConfig :: "nitro_context \<Rightarrow> rollup_config"
  cwd :: string
  new_Date :: string
  readFile :: "string \<Rightarrow> string"
  scanMiddleware :: "string \<Rightarrow> server_middleware list"
  document_hook :: "html_template \<Rightarrow> html_template"
  throws :: "effect list \<Rightarrow> effect \<Rightarrow> string option"

type_synonym 'a io = "effect list \<Rightarrow> (error + 'a) \<times> effect list"

definition io_return :: "'a \<Rightarrow> 'a io" where
  "io_return a tr = (Inr a, tr)"

definition io_bind :: "'a io \<Rightarrow> ('a \<Rightarrow> 'b io) \<Rightarrow> 'b io" where
  "io_bind m f tr = (case m tr of (Inl e, tr') \<Rightarrow> (Inl e, tr') | (Inr a, tr') \<Rightarrow> f a tr')"

definition io_throw :: "error \<Rightarrow> 'a io" where
  "io_throw e tr = (Inl e, tr)"

text \<open>A call that cannot fail (console output, creating and closing a watcher).\<close>

definition emit :: "effect \<Rightarrow> unit io" where
  "emit e tr = (Inr (), tr @ [e])"

text \<open>An awaited call that may reject: the call is recorded, then its outcome decided.\<close>

definition perform :: "env \<Rightarrow> effect \<Rightarrow> unit io" where
  "perform env e tr =
     (case throws env tr e of None \<Rightarrow> Inr () | Some m \<Rightarrow> Inl (JsError m), tr @ [e])"

section \<open>Directory lifecycle: prepare\<close>

text \<open>\<^verbatim>\<open>s.startsWith(p)\<close>.\<close>

definition startsWith :: "string \<Rightarrow> string \<Rightarrow> bool" where
  "startsWith s p = prefix p s"

definition cleanupDir :: "env \<Rightarrow> string \<Rightarrow> unit io" where
  "cleanupDir env d =
     io_bind (emit (ConsolaInfo [''Cleaning up'', prettyPath env d]))
       (\<lambda>_. perform env (EmptyDir d))"

definition prepare :: "env \<Rightarrow> nitro_context \<Rightarrow> unit io" where
  "prepare env nitroContext =
     io_bind (emit (ConsolaInfo [''Nitro preset is '' @ hl env (preset nitroContext)])) (\<lambda>_.
     io_bind (cleanupDir env (dir (ctx_output nitroContext))) (\<lambda>_.
     io_bind (if \<not> startsWith (publicDir (ctx_output nitroContext)) (dir (ctx_output nitroContext))
              then cleanupDir env (publicDir (ctx_output nitroContext))
              else io_return ()) (\<lambda>_.
     (if \<not> startsWith (serverDir (ctx_output nitroContext)) (dir (ctx_output nitroContext))
      then cleanupDir env (serverDir (ctx_output nitroContext))
      else io_return ()))))"

text \<open>The directories handed to \<^verbatim>\<open>fse.emptyDir\<close>, in order.\<close>

fun emptied :: "effect list \<Rightarrow> string list" where
  "emptied [] = []"
| "emptied (EmptyDir d # es) = d # emptied es"
| "emptied (_ # es) = emptied es"

text \<open>
  The specification's notion of nesting, on normalised absolute paths: \<open>p\<close> is a subpath
  of \<open>root\<close> when it is \<open>root\<close> itself or continues \<open>root\<close> after a path separator.
\<close>

definition is_subpath :: "string \<Rightarrow> string \<Rightarrow> bool" where
  "is_subpath root p =
     (p = root \<or>
      prefix (if root \<noteq> [] \<and> last root = CHR ''/'' then root else root @ ''/'') p)"

section \<open>Type declaration generator: writeTypes\<close>

definition is_lower :: "char \<Rightarrow> bool" where
  "is_lower c = (97 \<le> (of_char c :: nat) \<and> (of_char c :: nat) \<le> 122)"

text \<open>
  \<^verbatim>\<open>s.replace(/\.[a-z]+$/, '')\<close>: the leftmost dot that is followed, up to the end of
  the string, by one or more lower-case letters is removed together with them.
\<close>

fun strip_extension :: "string \<Rightarrow> string" where
  "strip_extension [] = []"
| "strip_extension (c # cs) =
     (if c = CHR ''.'' \<and> cs \<noteq> [] \<and> list_all is_lower cs then []
      else c # strip_extension cs)"

definition type_expr :: "env \<Rightarrow> string \<Rightarrow> string \<Rightarrow> string" where
  "type_expr env buildDir h =
     ''Awaited<ReturnType<typeof '' @
     genDynamicImport env (strip_extension (relative env buildDir h)) @ ''.default>>''"

text \<open>
  The route type map \<^verbatim>\<open>routeTypes\<close> is the object \<^verbatim>\<open>{}\<close>: its own properties, in
  the order they were created, each holding an array of derived type expressions, and
  behind them the members it inherits from \<^verbatim>\<open>Object.prototype\<close>.
\<close>

type_synonym route_types = "(string \<times> string list) list"

definition object_prototype_names :: "string list" where
  "object_prototype_names =
     [''constructor'', ''__defineGetter__'', ''__defineSetter__'', ''hasOwnProperty'',
      ''__lookupGetter__'', ''__lookupSetter__'', ''isPrototypeOf'',
      ''propertyIsEnumerable'', ''toString'', ''valueOf'', ''__proto__'',
      ''toLocaleString'']"

text \<open>Pushing onto the array that is the own property \<open>k\<close>, created empty if missing.\<close>

fun own_push :: "string \<Rightarrow> string \<Rightarrow> route_types \<Rightarrow> route_types" where
  "own_push k t [] = [(k, [t])]"
| "own_push k t ((k', ts) # rest) =
     (if k' = k then (k', ts @ [t]) # rest else (k', ts) # own_push k t rest)"

definition push_TypeError :: error where
  "push_TypeError = JsError ''TypeError: routeTypes[mw.route].push is not a function''"

text \<open>
  \<^verbatim>\<open>routeTypes[k] = routeTypes[k] || []; routeTypes[k].push(t)\<close>. Reading \<open>k\<close> gives
  the own array if there is one. Otherwise, if \<open>k\<close> names an inherited member, it gives
  that member, which is truthy and has no \<^verbatim>\<open>push\<close>: the call is a \<^verbatim>\<open>TypeError\<close>.
  Otherwise it gives \<^verbatim>\<open>undefined\<close>, and a new array is stored.
\<close>

definition push_route_type :: "string \<Rightarrow> string \<Rightarrow> route_types \<Rightarrow> error + route_types" where
  "push_route_type k t routeTypes =
     (case map_of routeTypes k of
        Some ts \<Rightarrow> Inr (own_push k t routeTypes)
      | None \<Rightarrow>
          if k \<in> set object_prototype_names then Inl push_TypeError
          else Inr (own_push k t routeTypes))"

text \<open>
  The loop over the middleware list; an entry with an inline handler is skipped, and
  the first failing push ends the loop.
\<close>

fun collect_route_types ::
  "env \<Rightarrow> string \<Rightarrow> server_middleware list \<Rightarrow> route_types \<Rightarrow> error + route_types" where
  "collect_route_types env buildDir [] routeTypes = Inr routeTypes"
| "collect_route_types env buildDir (mw # mws) routeTypes =
     (case handle mw of
        HandleInline _ \<Rightarrow> collect_route_types env buildDir mws routeTypes
      | HandlePath h \<Rightarrow>
          (case push_route_type (route mw) (type_expr env buildDir h) routeTypes of
             Inl e \<Rightarrow> Inl e
           | Inr routeTypes' \<Rightarrow> collect_route_types env buildDir mws routeTypes'))"

definition all_middleware :: "nitro_context \<Rightarrow> server_middleware list" where
  "all_middleware nitroContext = scannedMiddleware nitroContext @ middleware nitroContext"

definition routeTypes_of :: "env \<Rightarrow> nitro_context \<Rightarrow> error + route_types" where
  "routeTypes_of env nitroContext =
     collect_route_types env (nuxt_buildDir (nuxt nitroContext)) (all_middleware nitroContext) []"

text \<open>\<^verbatim>\<open>xs.join(sep)\<close>.\<close>

fun join_with :: "string \<Rightarrow> string list \<Rightarrow> string" where
  "join_with sep [] = []"
| "join_with sep [x] = x"
| "join_with sep (x # y # ys) = x @ sep @ join_with sep (y # ys)"

definition member_line :: "string \<times> string list \<Rightarrow> string" where
  "member_line e =
     ''    '' @ [CHR 0x27] @ fst e @ [CHR 0x27] @ '': '' @ join_with '' | '' (snd e)"

text \<open>
  \<^verbatim>\<open>Object.entries\<close>: the own properties whose key is an array index (the decimal
  numeral, without leading zeros, of a number below \<open>2\<^sup>3\<^sup>2 - 1\<close>) come first, in
  ascending numeric order, then the others in the order they were created.
\<close>

definition is_digit :: "char \<Rightarrow> bool" where
  "is_digit c = (48 \<le> (of_char c :: nat) \<and> (of_char c :: nat) \<le> 57)"

definition decimal_value :: "string \<Rightarrow> nat" where
  "decimal_value s = foldl (\<lambda>n c. 10 * n + ((of_char c :: nat) - 48)) 0 s"

definition is_array_index :: "string \<Rightarrow> bool" where
  "is_array_index k =
     (k \<noteq> [] \<and> list_all is_digit k \<and> (k = ''0'' \<or> hd k \<noteq> CHR ''0'') \<and>
      decimal_value k < 4294967295)"

definition object_entries :: "route_types \<Rightarrow> (string \<times> string list) list" where
  "object_entries routeTypes =
     sort_key (\<lambda>e. decimal_value (fst e)) (filter (\<lambda>e. is_array_index (fst e)) routeTypes) @
     filter (\<lambda>e. \<not> is_array_index (fst e)) routeTypes"

definition declaration_lines :: "route_types \<Rightarrow> string list" where
  "declaration_lines routeTypes =
     [''// Generated by nitro'',
      ''declare module '' @ [CHR 0x27] @ ''@nuxt/nitro'' @ [CHR 0x27] @ '' {'',
      ''  type Awaited<T> = T extends PromiseLike<infer U> ? Awaited<U> : T'',
      ''  interface InternalApi {''] @
     map member_line (object_entries routeTypes) @
     [''  }'',
      ''}'',
      ''export {}'']"

definition types_path :: "env \<Rightarrow> nitro_context \<Rightarrow> string" where
  "types_path env nitroContext = join env (nuxt_buildDir (nuxt nitroContext)) ''types/nitro.d.ts''"

text \<open>
  \<^verbatim>\<open>writeTypes\<close> is an async function: an exception in the loop rejects its promise
  before \<^verbatim>\<open>writeFile\<close> is called.
\<close>

definition writeTypes :: "env \<Rightarrow> nitro_context \<Rightarrow> unit io" where
  "writeTypes env nitroContext =
     (case routeTypes_of env nitroContext of
        Inl e \<Rightarrow> io_throw e
      | Inr routeTypes \<Rightarrow>
          perform env (WriteFile (types_path env nitroContext)
            (join_with [CHR 0x0A] (declaration_lines routeTypes))))"

text \<open>
  No entry with a filesystem-path handler has a route that names a member inherited
  from \<^verbatim>\<open>Object.prototype\<close>.
\<close>

definition no_inherited_route :: "server_middleware list \<Rightarrow> bool" where
  "no_inherited_route mws =
     list_all (\<lambda>mw. case handle mw of
                       HandlePath _ \<Rightarrow> route mw \<notin> set object_prototype_names
                     | HandleInline _ \<Rightarrow> True) mws"

text \<open>The map that the loop builds when no push fails.\<close>

fun own_collect ::
  "env \<Rightarrow> string \<Rightarrow> server_middleware list \<Rightarrow> route_types \<Rightarrow> route_types" where
  "own_collect env buildDir [] routeTypes = routeTypes"
| "own_collect env buildDir (mw # mws) routeTypes =
     (case handle mw of
        HandleInline _ \<Rightarrow> own_collect env buildDir mws routeTypes
      | HandlePath h \<Rightarrow>
          own_collect env buildDir mws
            (own_push (route mw) (type_expr env buildDir h) routeTypes))"

text \<open>
  All derived return-type expressions for a route pattern: one for each entry of the
  list, in order, that has this route and a filesystem-path handler.
\<close>

fun derived_types :: "env \<Rightarrow> string \<Rightarrow> string \<Rightarrow> server_middleware list \<Rightarrow> string list" where
  "derived_types env buildDir r [] = []"
| "derived_types env buildDir r (mw # mws) =
     (case handle mw of
        HandlePath h \<Rightarrow>
          (if route mw = r then [type_expr env buildDir h] else []) @
          derived_types env buildDir r mws
      | HandleInline _ \<Rightarrow> derived_types env buildDir r mws)"

section \<open>Template writer and build\<close>

text \<open>
  \<^verbatim>\<open>s.replace(/.html$/, '.mjs')\<close>. The dot of the pattern is not escaped: it stands for
  any character but a line terminator, so the last five characters are replaced when
  the string ends in \<^verbatim>\<open>html\<close> after such a character.
\<close>

definition replace_html_ext :: "string \<Rightarrow> string" where
  "replace_html_ext s =
     (if 5 \<le> length s \<and> drop (length s - 4) s = ''html'' \<and>
         s ! (length s - 5) \<noteq> CHR 0x0A \<and> s ! (length s - 5) \<noteq> CHR 0x0D
      then take (length s - 5) s @ ''.mjs'' else s)"

text \<open>\<^verbatim>\<open>s.replace(pat, rep)\<close> with a string pattern: the first occurrence only.\<close>

fun replace_first :: "string \<Rightarrow> string \<Rightarrow> string \<Rightarrow> string" where
  "replace_first pat rep [] = (if pat = [] then rep else [])"
| "replace_first pat rep (c # cs) =
     (if prefix pat (c # cs) then rep @ drop (length pat) (c # cs)
      else c # replace_first pat rep cs)"

definition htmlSrc :: "env \<Rightarrow> nitro_context \<Rightarrow> string" where
  "htmlSrc env nitroContext =
     resolve env (nuxt_buildDir (nuxt nitroContext)) ''views/app.template.html''"

definition htmlDst :: "string \<Rightarrow> string" where
  "htmlDst s = replace_first ''app.template.mjs'' ''document.template.mjs'' (replace_html_ext s)"

text \<open>
  \<^verbatim>\<open>nitroContext.vfs[src] || await fse.readFile(src, 'utf-8')\<close>: an entry of the virtual
  file map is used unless it is missing or the empty string.
\<close>

definition template_contents :: "env \<Rightarrow> nitro_context \<Rightarrow> string \<Rightarrow> string io" where
  "template_contents env nitroContext s =
     (case vfs nitroContext s of
        Some c \<Rightarrow>
          if c \<noteq> [] then io_return c
          else io_bind (perform env (ReadFile s)) (\<lambda>_. io_return (readFile env s))
      | None \<Rightarrow> io_bind (perform env (ReadFile s)) (\<lambda>_. io_return (readFile env s)))"

text \<open>The first part of \<^verbatim>\<open>build\<close>: compiling the HTML template.\<close>

definition compile_template :: "env \<Rightarrow> nitro_context \<Rightarrow> unit io" where
  "compile_template env nitroContext =
     io_bind (template_contents env nitroContext (htmlSrc env nitroContext)) (\<lambda>c.
     io_bind (perform env (CallHook ''nitro:document'')) (\<lambda>_.
       perform env
         (WriteFile
           (dst (document_hook env
             \<lparr>src = htmlSrc env nitroContext, contents = c,
              dst = htmlDst (htmlSrc env nitroContext)\<rparr>))
           (''export default '' @
            serializeTemplate env
              (contents (document_hook env
                \<lparr>src = htmlSrc env nitroContext, contents = c,
                 dst = htmlDst (htmlSrc env nitroContext)\<rparr>))))))"

text \<open>
  The destination the specification describes: the source path with its \<^verbatim>\<open>.html\<close>
  extension replaced by \<^verbatim>\<open>.mjs\<close> and nothing else changed.
\<close>

definition extension_substituted :: "string \<Rightarrow> string" where
  "extension_substituted s =
     (if 5 \<le> length s \<and> drop (length s - 5) s = ''.html''
      then take (length s - 5) s @ ''.mjs'' else s)"

section \<open>Production build\<close>

text \<open>
  Modelled from the spec: \<^verbatim>\<open>replaceAll\<close> of \<^verbatim>\<open>./utils\<close> is not among the sources.
  The specification says that occurrences of the output directory in a command string
  are replaced; the occurrences are taken from left to right, without overlap. An empty
  search string has no occurrence.
\<close>

function replaceAll :: "string \<Rightarrow> string \<Rightarrow> string \<Rightarrow> string" where
  "replaceAll [] from to = []"
| "replaceAll (c # cs) from to =
     (if from \<noteq> [] \<and> prefix from (c # cs)
      then to @ replaceAll (drop (length from) (c # cs)) from to
      else c # replaceAll cs from to)"
  by pat_completeness auto
termination
  by (relation "measure (\<lambda>(input, from, to). length input)") (auto simp: Suc_diff_le)

definition rewriteBuildPaths :: "nitro_context \<Rightarrow> string option \<Rightarrow> string \<Rightarrow> string option" where
  "rewriteBuildPaths nitroContext input to =
     (case input of
        Some s \<Rightarrow> Some (replaceAll s (dir (ctx_output nitroContext)) to)
      | None \<Rightarrow> None)"

text \<open>\<^verbatim>\<open>JSON.stringify\<close> of a string.\<close>

definition hex_digit :: "nat \<Rightarrow> char" where
  "hex_digit n = (if n < 10 then char_of (48 + n) else char_of (87 + n))"

definition json_escape :: "char \<Rightarrow> string" where
  "json_escape c =
     (if c = CHR 0x22 then [CHR 0x5C, CHR 0x22]
      else if c = CHR 0x5C then [CHR 0x5C, CHR 0x5C]
      else if c = CHR 0x08 then [CHR 0x5C, CHR ''b'']
      else if c = CHR 0x0C then [CHR 0x5C, CHR ''f'']
      else if c = CHR 0x0A then [CHR 0x5C, CHR ''n'']
      else if c = CHR 0x0D then [CHR 0x5C, CHR ''r'']
      else if c = CHR 0x09 then [CHR 0x5C, CHR ''t'']
      else if (of_char c :: nat) < 32
        then [CHR 0x5C, CHR ''u'', CHR ''0'', CHR ''0'',
              hex_digit ((of_char c :: nat) div 16), hex_digit ((of_char c :: nat) mod 16)]
      else [c])"

definition json_quote :: "string \<Rightarrow> string" where
  "json_quote s = [CHR 0x22] @ concat (map json_escape s) @ [CHR 0x22]"

text \<open>
  \<^verbatim>\<open>JSON.stringify\<close> of an object with a two-space gap, at indentation \<open>ind\<close>. A
  property is given with its serialised value; a property whose value is
  \<^verbatim>\<open>undefined\<close> (\<open>None\<close>) is left out, and an object with no property left is
  \<^verbatim>\<open>{}\<close>.
\<close>

definition json_property :: "string \<times> string option \<Rightarrow> string list" where
  "json_property p =
     (case snd p of None \<Rightarrow> [] | Some v \<Rightarrow> [json_quote (fst p) @ '': '' @ v])"

definition json_object :: "string \<Rightarrow> (string \<times> string option) list \<Rightarrow> string" where
  "json_object ind props =
     (if concat (map json_property props) = [] then ''{}''
      else ''{'' @ [CHR 0x0A] @ ind @ ''  '' @
           join_with ('','' @ [CHR 0x0A] @ ind @ ''  '') (concat (map json_property props)) @
           [CHR 0x0A] @ ind @ ''}'')"

definition buildInfo_json :: "env \<Rightarrow> nitro_context \<Rightarrow> string" where
  "buildInfo_json env nitroContext =
     json_object []
       [(''date'', Some (json_quote (new_Date env))),
        (''preset'', Some (json_quote (preset nitroContext))),
        (''commands'', Some (json_object ''  ''
           [(''preview'',
               map_option json_quote
                 (rewriteBuildPaths nitroContext (preview (commands nitroContext)) ''.'')),
            (''deploy'',
               map_option json_quote
                 (rewriteBuildPaths nitroContext (deploy (commands nitroContext)) ''.''))]))]"

definition nitroConfigPath :: "env \<Rightarrow> nitro_context \<Rightarrow> string" where
  "nitroConfigPath env nitroContext = resolve env (dir (ctx_output nitroContext)) ''nitro.json''"

text \<open>Truthiness of a command: \<^verbatim>\<open>undefined\<close> and the empty string are falsy.\<close>

definition truthy :: "string option \<Rightarrow> bool" where
  "truthy c = (case c of None \<Rightarrow> False | Some s \<Rightarrow> s \<noteq> [])"

text \<open>A value interpolated into a template literal.\<close>

definition interpolate :: "string option \<Rightarrow> string" where
  "interpolate v = (case v of None \<Rightarrow> ''undefined'' | Some s \<Rightarrow> s)"

definition rOutDir :: "env \<Rightarrow> nitro_context \<Rightarrow> string" where
  "rOutDir env nitroContext = relative env (cwd env) (dir (ctx_output nitroContext))"

definition deploy_hint :: "env \<Rightarrow> nitro_context \<Rightarrow> string" where
  "deploy_hint env nitroContext =
     ''You can deploy this build using `'' @
     interpolate (rewriteBuildPaths nitroContext (deploy (commands nitroContext))
                    (rOutDir env nitroContext)) @ ''`''"

text \<open>
  \<^verbatim>\<open>rollup.rollup(config).catch(...)\<close>: a rejection is logged and thrown again.
\<close>

definition rollup_rollup :: "env \<Rightarrow> rollup_config option \<Rightarrow> unit io" where
  "rollup_rollup env rc tr =
     (case perform env (RollupRollup rc) tr of
        (Inl (JsError m), tr') \<Rightarrow> (Inl (JsError m), tr' @ [ConsolaError [''Rollup error: '' @ m]])
      | (Inr u, tr') \<Rightarrow> (Inr u, tr'))"

text \<open>
  \<^verbatim>\<open>_build\<close> (a name cannot begin with an underscore here). Reading a property of a
  missing bundler configuration is a \<^verbatim>\<open>TypeError\<close>. The result is the context with
  the scanned middleware and the path of the entry file.
\<close>

definition u_build :: "env \<Rightarrow> nitro_context \<Rightarrow> (nitro_context \<times> string) io" where
  "u_build env nitroContext0 =
     io_bind (perform env (ScanMiddleware (nuxt_serverDir (nuxt nitroContext0)))) (\<lambda>_.
     let nitroContext = nitroContext0
           \<lparr>scannedMiddleware := scanMiddleware env (nuxt_serverDir (nuxt nitroContext0))\<rparr> in
     io_bind (writeTypes env nitroContext) (\<lambda>_.
     io_bind (emit (ConsolaStart [''Building server...''])) (\<lambda>_.
     io_bind (rollup_rollup env (rollupConfig nitroContext)) (\<lambda>_.
     io_bind (emit (ConsolaStart [''Writing server bundle...''])) (\<lambda>_.
     io_bind (case rollupConfig nitroContext of
                None \<Rightarrow> io_throw (JsError ''TypeError'')
              | Some rc \<Rightarrow> perform env (BundleWrite rc)) (\<lambda>_.
     io_bind (perform env (WriteFile (nitroConfigPath env nitroContext)
                (buildInfo_json env nitroContext))) (\<lambda>_.
     io_bind (emit (ConsolaSuccess [''Server built''])) (\<lambda>_.
     io_bind (perform env (PrintFSTree (serverDir (ctx_output nitroContext)))) (\<lambda>_.
     io_bind (perform env (CallHook ''nitro:compiled'')) (\<lambda>_.
     io_bind (if truthy (preview (commands nitroContext))
              then emit (ConsolaInfo [''You can preview this build using `nuxi preview`''])
              else io_return ()) (\<lambda>_.
     io_bind (if truthy (deploy (commands nitroContext))
              then emit (ConsolaInfo [deploy_hint env nitroContext])
              else io_return ()) (\<lambda>_.
     (case rollupConfig nitroContext of
        None \<Rightarrow> io_throw (JsError ''TypeError'')
      | Some rc \<Rightarrow>
          io_return (nitroContext,
            resolve env (rollup_output_dir rc) (rollup_entryFileNames rc)))))))))))))))"

text \<open>The hints that \<^verbatim>\<open>_build\<close> prints at its end.\<close>

definition hints :: "env \<Rightarrow> nitro_context \<Rightarrow> effect list" where
  "hints env c =
     (if truthy (preview (commands c))
      then [ConsolaInfo [''You can preview this build using `nuxi preview`'']] else []) @
     (if truthy (deploy (commands c)) then [ConsolaInfo [deploy_hint env c]] else [])"

section \<open>Watch mode\<close>

text \<open>
  \<^verbatim>\<open>rollup.watch(config)\<close> creates a watch session; it is given the number of sessions
  created before it. Creating and closing a session do not fail: the bundler reports
  its errors as \<^verbatim>\<open>ERROR\<close> events.
\<close>

fun watchers_created :: "effect list \<Rightarrow> nat" where
  "watchers_created [] = 0"
| "watchers_created (RollupWatch _ # es) = Suc (watchers_created es)"
| "watchers_created (_ # es) = watchers_created es"

definition startRollupWatcher :: "env \<Rightarrow> nitro_context \<Rightarrow> effect list \<Rightarrow> nat \<times> effect list" where
  "startRollupWatcher env nitroContext tr =
     (watchers_created tr, tr @ [RollupWatch (watchers_created tr)])"

text \<open>
  The state of a watch session of the build: the context, the variable \<^verbatim>\<open>watcher\<close> of
  \<^verbatim>\<open>_watch\<close> and the variable \<^verbatim>\<open>start\<close> in the closure of the current watcher's
  event handler.
\<close>

record watch_state =
  ws_context :: nitro_context
  ws_watcher :: nat
  ws_start :: "int option"

datatype rollup_event = START | BUNDLE_START | BUNDLE_END | END | ERROR string

text \<open>A number in a template literal: its decimal digits, after a minus sign if negative.\<close>

definition digit_char :: "nat \<Rightarrow> char" where
  "digit_char d = char_of (48 + d)"

function decimal_digits :: "nat \<Rightarrow> string \<Rightarrow> string" where
  "decimal_digits n acc =
     (if n < 10 then digit_char n # acc
      else decimal_digits (n div 10) (digit_char (n mod 10) # acc))"
  by pat_completeness auto
termination
  by (relation "measure fst") auto

definition number_text :: "int \<Rightarrow> string" where
  "number_text k =
     (if 0 \<le> k then decimal_digits (nat k) []
      else CHR ''-'' # decimal_digits (nat (- k)) [])"

text \<open>
  \<^verbatim>\<open>start ? `in ${Date.now() - start} ms` : ''\<close>: an unset \<^verbatim>\<open>start\<close> and the
  number 0 are falsy.
\<close>

definition duration_text :: "int \<Rightarrow> int option \<Rightarrow> string" where
  "duration_text now start =
     (case start of
        None \<Rightarrow> []
      | Some s \<Rightarrow> if s = 0 then [] else ''in '' @ number_text (now - s) @ '' ms'')"

text \<open>
  The handler that \<^verbatim>\<open>startRollupWatcher\<close> registers for the events of its watcher;
  \<open>now\<close> is what \<^verbatim>\<open>Date.now()\<close> returns while the event is handled. The hook
  \<^verbatim>\<open>nitro:compiled\<close> is called and not awaited. The switch has no case for
  \<^verbatim>\<open>BUNDLE_END\<close>.
\<close>

fun on_watcher_event ::
  "env \<Rightarrow> int \<Rightarrow> rollup_event \<Rightarrow> watch_state \<Rightarrow> effect list \<Rightarrow> watch_state \<times> effect list" where
  "on_watcher_event env now START st tr = (st, tr)"
| "on_watcher_event env now BUNDLE_START st tr = (st\<lparr>ws_start := Some now\<rparr>, tr)"
| "on_watcher_event env now END st tr =
     (st, tr @ [CallHook ''nitro:compiled'',
                ConsolaSuccess [''Nitro built'', duration_text now (ws_start st)]])"
| "on_watcher_event env now (ERROR e) st tr = (st, tr @ [ConsolaError [''Rollup error: '' @ e]])"
| "on_watcher_event env now BUNDLE_END st tr = (st, tr)"

text \<open>
  The callback that \<^verbatim>\<open>_watch\<close> gives to the middleware scanner. \<^verbatim>\<open>writeTypes\<close> is
  called and not awaited: its call to \<^verbatim>\<open>writeFile\<close> is made before the new watcher is
  started, and a rejection reaches \<^verbatim>\<open>console.error\<close> after the callback has returned.
\<close>

definition rejection_logged :: "error + unit \<Rightarrow> effect list" where
  "rejection_logged r = (case r of Inl (JsError m) \<Rightarrow> [ConsoleError m] | Inr _ \<Rightarrow> [])"

definition on_scan_event ::
  "env \<Rightarrow> server_middleware list \<Rightarrow> string \<Rightarrow> watch_state \<Rightarrow> effect list \<Rightarrow>
   watch_state \<times> effect list" where
  "on_scan_event env mws event st tr =
     (let nitroContext = (ws_context st)\<lparr>scannedMiddleware := mws\<rparr> in
      if event \<in> set [''add'', ''addDir''] then
        (let tr1 = tr @ [WatcherClose (ws_watcher st)];
             written = writeTypes env nitroContext tr1;
             started = startRollupWatcher env nitroContext (snd written)
         in (\<lparr>ws_context = nitroContext, ws_watcher = fst started, ws_start = None\<rparr>,
             snd started @ rejection_logged (fst written)))
      else (st\<lparr>ws_context := nitroContext\<rparr>, tr))"

text \<open>\<^verbatim>\<open>_watch\<close>: the first watcher, the first scan and the first type declarations.\<close>

definition u_watch :: "env \<Rightarrow> nitro_context \<Rightarrow> watch_state io" where
  "u_watch env nitroContext0 tr =
     (let started = startRollupWatcher env nitroContext0 tr;
          nitroContext = nitroContext0
            \<lparr>scannedMiddleware := scanMiddleware env (nuxt_serverDir (nuxt nitroContext0))\<rparr>
      in io_bind (perform env (ScanMiddleware (nuxt_serverDir (nuxt nitroContext0)))) (\<lambda>_.
         io_bind (writeTypes env nitroContext) (\<lambda>_.
         io_return \<lparr>ws_context = nitroContext, ws_watcher = fst started, ws_start = None\<rparr>))
           (snd started))"

text \<open>
  What happens to a running watch session: the scanner reports a filesystem event
  together with its latest list of middleware, or the current watcher reports an event.
\<close>

datatype watch_input =
    ScanEvent "server_middleware list" string
  | WatcherEvent int rollup_event

fun watch_step :: "env \<Rightarrow> watch_input \<Rightarrow> watch_state \<times> effect list \<Rightarrow> watch_state \<times> effect list" where
  "watch_step env (ScanEvent mws event) (st, tr) = on_scan_event env mws event st tr"
| "watch_step env (WatcherEvent now ev) (st, tr) = on_watcher_event env now ev st tr"

fun watch_run :: "env \<Rightarrow> watch_input list \<Rightarrow> watch_state \<times> effect list \<Rightarrow> watch_state \<times> effect list" where
  "watch_run env [] c = c"
| "watch_run env (i # is) c = watch_run env is (watch_step env i c)"

text \<open>
  The trace of a watch session: \<^verbatim>\<open>_watch\<close>, then, if it returned, the inputs one
  after the other.
\<close>

definition watch_session :: "env \<Rightarrow> nitro_context \<Rightarrow> watch_input list \<Rightarrow> effect list" where
  "watch_session env nitroContext inputs =
     (case u_watch env nitroContext [] of
        (Inl e, tr) \<Rightarrow> tr
      | (Inr st, tr) \<Rightarrow> snd (watch_run env inputs (st, tr)))"

text \<open>The watch sessions that are live after a trace: created and not closed.\<close>

fun live_watchers :: "effect list \<Rightarrow> nat list \<Rightarrow> nat list" where
  "live_watchers [] live = live"
| "live_watchers (RollupWatch w # es) live = live_watchers es (live @ [w])"
| "live_watchers (WatcherClose w # es) live = live_watchers es (removeAll w live)"
| "live_watchers (_ # es) live = live_watchers es live"

text \<open>
  The invariant of a watch session: after every prefix of the trace at most one watch
  session is live, and a session that is live at the end is the one held in the
  variable \<^verbatim>\<open>watcher\<close>.
\<close>

definition session_invariant :: "watch_state \<Rightarrow> effect list \<Rightarrow> bool" where
  "session_invariant st tr =
     (list_all (\<lambda>p. length (live_watchers p []) \<le> 1) (prefixes tr) \<and>
      set (live_watchers tr []) \<subseteq> {ws_watcher st})"

text \<open>The whole of \<^verbatim>\<open>build\<close>.\<close>

datatype build_result = Built string | Watching watch_state

definition build :: "env \<Rightarrow> nitro_context \<Rightarrow> build_result io" where
  "build env nitroContext0 =
     io_bind (compile_template env nitroContext0) (\<lambda>_.
     let nitroContext = nitroContext0\<lparr>rollupConfig := Some (getRollupConfig env nitroContext0)\<rparr> in
     io_bind (perform env (CallHook ''nitro:rollup:before'')) (\<lambda>_.
     if nuxt_dev (nuxt nitroContext)
     then io_bind (u_watch env nitroContext) (\<lambda>st. io_return (Watching st))
     else io_bind (u_build env nitroContext) (\<lambda>r. io_return (Built (snd r)))))"

section \<open>An example environment\<close>

text \<open>
  A concrete environment and context on which the model is evaluated: no call fails,
  the scanner finds nothing, the document hook leaves the template as it is, and the
  path functions act on absolute, normalised paths: two paths are joined with a
  separator, and the relative path climbs from the base to the common ancestor and
  descends to the target.
\<close>

fun split_path :: "string \<Rightarrow> string list" where
  "split_path [] = [[]]"
| "split_path (c # cs) =
     (if c = CHR ''/'' then [] # split_path cs
      else (case split_path cs of [] \<Rightarrow> [[c]] | s # ss \<Rightarrow> (c # s) # ss))"

definition example_relative :: "string \<Rightarrow> string \<Rightarrow> string" where
  "example_relative a b =
     (let n = length (longest_common_prefix (split_path a) (split_path b))
      in join_with ''/''
           (replicate (length (split_path a) - n) ''..'' @ drop n (split_path b)))"

definition example_env :: env where
  "example_env =
     \<lparr>hl = (\<lambda>s. s), prettyPath = (\<lambda>s. s),
      resolve = (\<lambda>a b. a @ ''/'' @ b),
      relative = example_relative,
      join = (\<lambda>a b. a @ ''/'' @ b),
      genDynamicImport = (\<lambda>s. ''import('' @ [CHR 0x22] @ s @ [CHR 0x22] @ '')''),
      serializeTemplate = (\<lambda>s. s),
      getRollupConfig =
        (\<lambda>c. \<lparr>rollup_output_dir = serverDir (ctx_output c),
              rollup_entryFileNames = ''index.mjs''\<rparr>),
      cwd = ''/proj'',
      new_Date = ''2022-02-01T00:00:00.000Z'',
      readFile = (\<lambda>p. ''<html></html>''),
      scanMiddleware = (\<lambda>d. []),
      document_hook = (\<lambda>t. t),
      throws = (\<lambda>tr e. None)\<rparr>"

definition example_context :: "string \<Rightarrow> string \<Rightarrow> string \<Rightarrow> nitro_context" where
  "example_context root pub srv =
     \<lparr>preset = ''server'',
      ctx_output = \<lparr>dir = root, publicDir = pub, serverDir = srv\<rparr>,
      commands = \<lparr>preview = None, deploy = None\<rparr>,
      vfs = Map.empty,
      middleware = [],
      scannedMiddleware = [],
      nuxt = \<lparr>nuxt_buildDir = ''/proj/.nuxt'', nuxt_serverDir = ''/proj/server'',
              nuxt_dev = False\<rparr>,
      rollupConfig = None\<rparr>"

text \<open>Two handlers for one route, and an inline handler between them.\<close>

definition hello_get :: server_middleware where
  "hello_get = \<lparr>route = ''/api/hello'', handle = HandlePath ''/proj/server/api/hello.ts''\<rparr>"

definition hello_post :: server_middleware where
  "hello_post = \<lparr>route = ''/api/hello'', handle = HandlePath ''/proj/server/api/hello.post.ts''\<rparr>"

definition inline_mw :: server_middleware where
  "inline_mw = \<lparr>route = ''/api/hello'', handle = HandleInline 0\<rparr>"

definition hello_context :: nitro_context where
  "hello_context =
     (example_context ''/proj/.output'' ''/proj/.output/public'' ''/proj/.output/server'')
       \<lparr>scannedMiddleware := [hello_get], middleware := [inline_mw, hello_post]\<rparr>"

text \<open>Two handlers configured for a route named \<^verbatim>\<open>constructor\<close>.\<close>

definition constructor_context :: nitro_context where
  "constructor_context =
     (example_context ''/proj/.output'' ''/proj/.output/public'' ''/proj/.output/server'')
       \<lparr>middleware :=
          [\<lparr>route = ''constructor'', handle = HandlePath ''/proj/server/a.ts''\<rparr>,
           \<lparr>route = ''constructor'', handle = HandlePath ''/proj/server/b.ts''\<rparr>],
        rollupConfig := Some \<lparr>rollup_output_dir = ''/proj/.output/server'',
                              rollup_entryFileNames = ''index.mjs''\<rparr>\<rparr>"

text \<open>Contexts of a production build, with and without a deploy command.\<close>

definition deploy_context :: nitro_context where
  "deploy_context =
     (example_context ''/proj/.output'' ''/proj/.output/public'' ''/proj/.output/server'')
       \<lparr>commands := \<lparr>preview = None,
                      deploy = Some ''cd /proj/.output && deploy /proj/.output''\<rparr>,
        rollupConfig := Some \<lparr>rollup_output_dir = ''/proj/.output/server'',
                              rollup_entryFileNames = ''index.mjs''\<rparr>\<rparr>"

definition plain_context :: nitro_context where
  "plain_context =
     (example_context ''/proj/.output'' ''/proj/.output/public'' ''/proj/.output/server'')
       \<lparr>rollupConfig := Some \<lparr>rollup_output_dir = ''/proj/.output/server'',
                              rollup_entryFileNames = ''index.mjs''\<rparr>\<rparr>"


definition watch_inputs :: "watch_input list" where
  "watch_inputs =
     [WatcherEvent 5 BUNDLE_START, WatcherEvent 12 END,
      ScanEvent [hello_get] ''add'',
      WatcherEvent 20 (ERROR ''Error: boom''),
      ScanEvent [hello_get] ''change'',
      ScanEvent [hello_get, hello_post] ''addDir'']"

section \<open>Properties of prepare\<close>

lemmas io_defs = io_bind_def io_return_def io_throw_def emit_def perform_def

lemma if_io: "(if b then m else m') tr = (if b then m tr else m' tr)"
  by simp

lemma emptied_append: "emptied (xs @ ys) = emptied xs @ emptied ys"
  by (induction xs rule: emptied.induct) auto

lemma is_subpath_startsWith: "is_subpath root p \<Longrightarrow> startsWith p root"
  by (auto simp: is_subpath_def startsWith_def split: if_splits intro: append_prefixD)

text \<open>
  C1, as amended. When the public-assets and the server-assets directory are both
  subpaths of the root output directory, prepare hands only the root to
  \<^verbatim>\<open>emptyDir\<close>. In a run in which no call fails, the directories emptied are the
  root, then the public-assets directory unless its path string begins with the root's
  path string, then the server-assets directory under the same condition.
\<close>

theorem prepare_emptied:
  "(is_subpath (dir (ctx_output c)) (publicDir (ctx_output c)) \<and>
    is_subpath (dir (ctx_output c)) (serverDir (ctx_output c)) \<longrightarrow>
      emptied (snd (prepare env c tr)) = emptied tr @ [dir (ctx_output c)]) \<and>
   (fst (prepare env c tr) = Inr () \<longrightarrow>
      emptied (snd (prepare env c tr)) =
        emptied tr @ [dir (ctx_output c)] @
        (if startsWith (publicDir (ctx_output c)) (dir (ctx_output c)) then []
         else [publicDir (ctx_output c)]) @
        (if startsWith (serverDir (ctx_output c)) (dir (ctx_output c)) then []
         else [serverDir (ctx_output c)]))"
proof (intro conjI impI)
  assume "is_subpath (dir (ctx_output c)) (publicDir (ctx_output c)) \<and>
    is_subpath (dir (ctx_output c)) (serverDir (ctx_output c))"
  then have "startsWith (publicDir (ctx_output c)) (dir (ctx_output c))"
    and "startsWith (serverDir (ctx_output c)) (dir (ctx_output c))"
    by (simp_all add: is_subpath_startsWith)
  then show "emptied (snd (prepare env c tr)) = emptied tr @ [dir (ctx_output c)]"
    by (simp add: prepare_def cleanupDir_def io_defs emptied_append split: option.splits)
next
  assume "fst (prepare env c tr) = Inr ()"
  then show "emptied (snd (prepare env c tr)) =
        emptied tr @ [dir (ctx_output c)] @
        (if startsWith (publicDir (ctx_output c)) (dir (ctx_output c)) then []
         else [publicDir (ctx_output c)]) @
        (if startsWith (serverDir (ctx_output c)) (dir (ctx_output c)) then []
         else [serverDir (ctx_output c)])"
    by (auto simp: prepare_def cleanupDir_def io_defs if_io emptied_append
        split: option.splits if_splits)
qed

theorem prepare_emptied_witness:
  "emptied (snd (prepare example_env
      (example_context ''/out'' ''/out/public'' ''/out/server'') [])) = [''/out''] \<and>
   emptied (snd (prepare example_env
      (example_context ''/out'' ''/out/public'' ''/srv'') [])) = [''/out'', ''/srv'']"
proof -
  have a: "is_subpath ''/out'' ''/out/public''" "is_subpath ''/out'' ''/out/server''"
    by (simp_all add: is_subpath_def)
  have b: "fst (prepare example_env (example_context ''/out'' ''/out/public'' ''/srv'') []) = Inr ()"
    by (simp add: prepare_def cleanupDir_def io_defs example_env_def example_context_def
        startsWith_def)
  show ?thesis
    using a b
      prepare_emptied [of "example_context ''/out'' ''/out/public'' ''/out/server''" example_env "[]"]
      prepare_emptied [of "example_context ''/out'' ''/out/public'' ''/srv''" example_env "[]"]
    by (simp add: example_context_def startsWith_def)
qed

text \<open>
  C1 as stated fails: with the root \<^verbatim>\<open>/out\<close>, the public-assets directory
  \<^verbatim>\<open>/output\<close> is not nested inside the root, and a run in which no call fails
  empties the root only.
\<close>

theorem prepare_sibling_counterexample:
  "\<not> is_subpath ''/out'' ''/output'' \<and>
   fst (prepare example_env (example_context ''/out'' ''/output'' ''/out/server'') []) = Inr () \<and>
   emptied (snd (prepare example_env (example_context ''/out'' ''/output'' ''/out/server'') []))
     = [''/out'']"
  by (simp add: is_subpath_def prepare_def cleanupDir_def io_defs example_env_def
      example_context_def startsWith_def)

text \<open>
  C10. The nesting test of prepare compares strings: a public-assets or server-assets
  directory that is not a subpath of the root, while its path string begins with the
  root's path string, is never handed to \<^verbatim>\<open>emptyDir\<close>.
\<close>

theorem prepare_prefix_test_is_raw:
  "(\<not> is_subpath (dir (ctx_output c)) (publicDir (ctx_output c)) \<and>
    startsWith (publicDir (ctx_output c)) (dir (ctx_output c)) \<longrightarrow>
      EmptyDir (publicDir (ctx_output c)) \<notin> set (snd (prepare env c []))) \<and>
   (\<not> is_subpath (dir (ctx_output c)) (serverDir (ctx_output c)) \<and>
    startsWith (serverDir (ctx_output c)) (dir (ctx_output c)) \<longrightarrow>
      EmptyDir (serverDir (ctx_output c)) \<notin> set (snd (prepare env c [])))"
  by (auto simp: prepare_def cleanupDir_def io_defs if_io is_subpath_def
      split: option.splits if_splits)

theorem prepare_prefix_test_is_raw_witness:
  "\<not> is_subpath ''/out'' ''/output'' \<and> startsWith ''/output'' ''/out'' \<and>
   EmptyDir ''/output'' \<notin>
     set (snd (prepare example_env (example_context ''/out'' ''/output'' ''/outer'') [])) \<and>
   \<not> is_subpath ''/out'' ''/outer'' \<and> startsWith ''/outer'' ''/out'' \<and>
   EmptyDir ''/outer'' \<notin>
     set (snd (prepare example_env (example_context ''/out'' ''/output'' ''/outer'') []))"
proof -
  have a: "\<not> is_subpath ''/out'' ''/output''" "startsWith ''/output'' ''/out''"
     "\<not> is_subpath ''/out'' ''/outer''" "startsWith ''/outer'' ''/out''"
    by (simp_all add: is_subpath_def startsWith_def)
  show ?thesis
    using a prepare_prefix_test_is_raw [of "example_context ''/out'' ''/output'' ''/outer''" example_env]
    by (simp add: example_context_def)
qed

section \<open>Properties of writeTypes\<close>

lemma own_push_keys:
  "map fst (own_push k t rt) = (if k \<in> fst ` set rt then map fst rt else map fst rt @ [k])"
  by (induction rt) force+

lemma own_push_distinct:
  "distinct (map fst rt) \<Longrightarrow> distinct (map fst (own_push k t rt))"
  by (simp add: own_push_keys)

lemma own_push_map_of:
  "map_of (own_push k t rt) =
     (map_of rt)(k \<mapsto> (case map_of rt k of None \<Rightarrow> [] | Some ts \<Rightarrow> ts) @ [t])"
  by (induction rt) (auto simp: fun_eq_iff)

lemma own_collect_distinct:
  "distinct (map fst rt) \<Longrightarrow> distinct (map fst (own_collect env bd mws rt))"
  by (induction mws arbitrary: rt) (auto simp: own_push_distinct split: handle.splits)

lemma own_collect_map_of:
  "map_of (own_collect env bd mws rt) r =
     (if derived_types env bd r mws = [] then map_of rt r
      else Some ((case map_of rt r of None \<Rightarrow> [] | Some ts \<Rightarrow> ts) @ derived_types env bd r mws))"
  by (induction mws arbitrary: rt) (auto simp: own_push_map_of split: handle.splits option.splits)

lemma push_route_type_Inr:
  "k \<notin> set object_prototype_names \<Longrightarrow> push_route_type k t rt = Inr (own_push k t rt)"
  by (simp add: push_route_type_def split: option.splits)

lemma collect_route_types_Inr:
  "no_inherited_route mws \<Longrightarrow>
   collect_route_types env bd mws rt = Inr (own_collect env bd mws rt)"
proof (induction mws arbitrary: rt)
  case Nil
  then show ?case by simp
next
  case (Cons mw mws)
  from Cons.prems have rest: "no_inherited_route mws"
    by (simp add: no_inherited_route_def)
  show ?case
  proof (cases "handle mw")
    case (HandleInline f)
    with Cons.IH [OF rest] show ?thesis by simp
  next
    case (HandlePath h)
    with Cons.prems have "route mw \<notin> set object_prototype_names"
      by (simp add: no_inherited_route_def)
    then have "push_route_type (route mw) (type_expr env bd h) rt =
        Inr (own_push (route mw) (type_expr env bd h) rt)"
      by (rule push_route_type_Inr)
    with Cons.IH [OF rest] HandlePath show ?thesis by simp
  qed
qed

lemma collect_skip_inline:
  "handle mw = HandleInline f \<Longrightarrow>
   collect_route_types env bd (xs @ mw # ys) rt = collect_route_types env bd (xs @ ys) rt"
  by (induction xs arbitrary: rt) (auto split: handle.splits sum.splits)

lemma filter_key_single:
  "distinct (map fst xs) \<Longrightarrow> map_of xs k = Some v \<Longrightarrow> filter (\<lambda>e. fst e = k) xs = [(k, v)]"
proof (induction xs)
  case Nil
  then show ?case by simp
next
  case (Cons x xs)
  show ?case
  proof (cases "fst x = k")
    case True
    with Cons.prems have "x = (k, v)" by (cases x) simp
    moreover have "filter (\<lambda>e. fst e = k) xs = []"
      using Cons.prems(1) True by (auto simp: filter_empty_conv image_iff)
    ultimately show ?thesis by simp
  next
    case False
    with Cons show ?thesis by (cases x) auto
  qed
qed

lemma filter_swap: "filter P (filter Q xs) = filter Q (filter P xs)"
  by (induction xs) auto

lemma object_entries_key_single:
  assumes "distinct (map fst rt)" and "map_of rt k = Some v"
  shows "filter (\<lambda>e. fst e = k) (object_entries rt) = [(k, v)]"
proof -
  have f: "filter (\<lambda>e. fst e = k) rt = [(k, v)]"
    using assms by (rule filter_key_single)
  have a: "filter (\<lambda>e. fst e = k) (filter (\<lambda>e. is_array_index (fst e)) rt) =
      filter (\<lambda>e. is_array_index (fst e)) [(k, v)]"
    by (simp only: filter_swap [of "\<lambda>e. fst e = k"] f)
  have b: "filter (\<lambda>e. fst e = k) (filter (\<lambda>e. \<not> is_array_index (fst e)) rt) =
      filter (\<lambda>e. \<not> is_array_index (fst e)) [(k, v)]"
    by (simp only: filter_swap [of "\<lambda>e. fst e = k"] f)
  show ?thesis
    unfolding object_entries_def filter_append filter_sort a b
    by (cases "is_array_index k") simp_all
qed

lemma derived_types_nth:
  "i < length mws \<Longrightarrow> route (mws ! i) = r \<Longrightarrow> handle (mws ! i) = HandlePath h \<Longrightarrow>
   type_expr env bd h \<in> set (derived_types env bd r mws)"
proof (induction mws arbitrary: i)
  case Nil
  then show ?case by simp
next
  case (Cons mw mws)
  then show ?case
    by (cases i) (auto split: handle.splits)
qed

lemma derived_types_two:
  "i < j \<Longrightarrow> j < length mws \<Longrightarrow> route (mws ! i) = r \<Longrightarrow> handle (mws ! i) = HandlePath h1 \<Longrightarrow>
   route (mws ! j) = r \<Longrightarrow> handle (mws ! j) = HandlePath h2 \<Longrightarrow>
   \<exists>a b c. derived_types env bd r mws = a @ [type_expr env bd h1] @ b @ [type_expr env bd h2] @ c"
proof (induction mws arbitrary: i j)
  case Nil
  then show ?case by simp
next
  case (Cons mw mws)
  show ?case
  proof (cases i)
    case 0
    from Cons.prems 0 obtain j' where j: "j = Suc j'" by (cases j) auto
    with Cons.prems have "type_expr env bd h2 \<in> set (derived_types env bd r mws)"
      by (auto intro: derived_types_nth)
    then obtain b c where "derived_types env bd r mws = b @ type_expr env bd h2 # c"
      by (auto simp: in_set_conv_decomp)
    with Cons.prems 0 have "derived_types env bd r (mw # mws) = [] @ [type_expr env bd h1] @ b @ [type_expr env bd h2] @ c"
      by simp
    then show ?thesis by blast
  next
    case (Suc i')
    with Cons.prems obtain j' where j: "j = Suc j'" by (cases j) auto
    with Cons.prems Suc have "\<exists>a b c. derived_types env bd r mws = a @ [type_expr env bd h1] @ b @ [type_expr env bd h2] @ c"
      by (intro Cons.IH [of i' j']) auto
    then obtain a b c where e: "derived_types env bd r mws = a @ [type_expr env bd h1] @ b @ [type_expr env bd h2] @ c"
      by blast
    show ?thesis
    proof (cases "handle mw")
      case (HandlePath h)
      with e have "derived_types env bd r (mw # mws) = ((if route mw = r then [type_expr env bd h] else []) @ a) @ [type_expr env bd h1] @ b @ [type_expr env bd h2] @ c"
        by simp
      then show ?thesis by blast
    next
      case (HandleInline f)
      with e show ?thesis by auto
    qed
  qed
qed

lemma routeTypes_of_Inr:
  "no_inherited_route (all_middleware c) \<Longrightarrow>
   routeTypes_of env c =
     Inr (own_collect env (nuxt_buildDir (nuxt c)) (all_middleware c) [])"
  by (simp add: routeTypes_of_def collect_route_types_Inr)

lemma own_collect_entries_single:
  assumes "derived_types env bd r mws \<noteq> []"
  shows "filter (\<lambda>e. fst e = r) (object_entries (own_collect env bd mws [])) =
           [(r, derived_types env bd r mws)]"
proof -
  have "distinct (map fst (own_collect env bd mws []))"
    by (rule own_collect_distinct) simp
  moreover have "map_of (own_collect env bd mws []) r = Some (derived_types env bd r mws)"
    using assms by (simp add: own_collect_map_of)
  ultimately show ?thesis by (rule object_entries_key_single)
qed

lemma filter_single_split:
  assumes "filter P xs = [x]"
  shows "\<exists>pre post. xs = pre @ [x] @ post \<and> (\<forall>e\<in>set pre \<union> set post. \<not> P e)"
proof -
  from assms obtain us vs where "xs = us @ x # vs" "\<forall>u\<in>set us. \<not> P u" "[] = filter P vs"
    by (auto simp: filter_eq_Cons_iff)
  then show ?thesis
    by (intro exI [of _ us] exI [of _ vs]) (auto simp: filter_empty_conv dest: sym)
qed

text \<open>
  When no route with a filesystem-path handler names an inherited member, two entries
  with the same route pattern and filesystem-path handlers give one interface member
  for that pattern in the text written to the declaration file: the union of every type
  expression derived for the pattern, those of both entries among them in the order of
  the list. No other member of the interface is for that pattern.
\<close>

lemma writeTypes_union_member:
  assumes "i < j" and "j < length (all_middleware c)"
    and "route (all_middleware c ! i) = r" and "handle (all_middleware c ! i) = HandlePath h1"
    and "route (all_middleware c ! j) = r" and "handle (all_middleware c ! j) = HandlePath h2"
    and "no_inherited_route (all_middleware c)"
  shows "(\<exists>pre post. (\<forall>e\<in>set pre \<union> set post. fst e \<noteq> r) \<and>
            snd (writeTypes env c tr) =
              tr @ [WriteFile (join env (nuxt_buildDir (nuxt c)) ''types/nitro.d.ts'')
                (join_with [CHR 0x0A]
                  ([''// Generated by nitro'',
                    ''declare module '' @ [CHR 0x27] @ ''@nuxt/nitro'' @ [CHR 0x27] @ '' {'',
                    ''  type Awaited<T> = T extends PromiseLike<infer U> ? Awaited<U> : T'',
                    ''  interface InternalApi {''] @
                   map member_line pre @
                   [''    '' @ [CHR 0x27] @ r @ [CHR 0x27] @ '': '' @
                    join_with '' | ''
                      (derived_types env (nuxt_buildDir (nuxt c)) r (all_middleware c))] @
                   map member_line post @
                   [''  }'', ''}'', ''export {}'']))]) \<and>
         (\<exists>a b d. derived_types env (nuxt_buildDir (nuxt c)) r (all_middleware c) =
            a @ [type_expr env (nuxt_buildDir (nuxt c)) h1] @ b @
            [type_expr env (nuxt_buildDir (nuxt c)) h2] @ d)"
proof -
  let ?bd = "nuxt_buildDir (nuxt c)"
  let ?rt = "own_collect env ?bd (all_middleware c) []"
  have two: "\<exists>a b d. derived_types env ?bd r (all_middleware c) =
      a @ [type_expr env ?bd h1] @ b @ [type_expr env ?bd h2] @ d"
    using assms(1-6) by (rule derived_types_two)
  then have "derived_types env ?bd r (all_middleware c) \<noteq> []"
    by auto
  then have "filter (\<lambda>e. fst e = r) (object_entries ?rt) =
      [(r, derived_types env ?bd r (all_middleware c))]"
    by (rule own_collect_entries_single)
  from filter_single_split [OF this] obtain pre post where
    entries: "object_entries ?rt = pre @ [(r, derived_types env ?bd r (all_middleware c))] @ post"
    and others: "\<forall>e\<in>set pre \<union> set post. fst e \<noteq> r"
    by blast
  from assms(7) have "routeTypes_of env c = Inr ?rt"
    by (rule routeTypes_of_Inr)
  then have "snd (writeTypes env c tr) =
      tr @ [WriteFile (types_path env c) (join_with [CHR 0x0A] (declaration_lines ?rt))]"
    by (simp add: writeTypes_def perform_def)
  with entries have "snd (writeTypes env c tr) =
      tr @ [WriteFile (join env ?bd ''types/nitro.d.ts'')
        (join_with [CHR 0x0A]
          ([''// Generated by nitro'',
            ''declare module '' @ [CHR 0x27] @ ''@nuxt/nitro'' @ [CHR 0x27] @ '' {'',
            ''  type Awaited<T> = T extends PromiseLike<infer U> ? Awaited<U> : T'',
            ''  interface InternalApi {''] @
           map member_line pre @
           [''    '' @ [CHR 0x27] @ r @ [CHR 0x27] @ '': '' @
            join_with '' | '' (derived_types env ?bd r (all_middleware c))] @
           map member_line post @
           [''  }'', ''}'', ''export {}'']))]"
    by (simp add: declaration_lines_def types_path_def member_line_def)
  with others two show ?thesis by blast
qed

text \<open>
  C3. The claim fails for a route pattern that names a member inherited from
  \<^verbatim>\<open>Object.prototype\<close>: with two filesystem-path handlers configured for the route
  \<^verbatim>\<open>constructor\<close>, the generator throws a \<^verbatim>\<open>TypeError\<close> at the first push and
  writes no declaration file, and a production build ends there.
\<close>

theorem writeTypes_inherited_route_throws:
  "writeTypes example_env constructor_context [] =
     (Inl (JsError ''TypeError: routeTypes[mw.route].push is not a function''), []) \<and>
   u_build example_env constructor_context [] =
     (Inl (JsError ''TypeError: routeTypes[mw.route].push is not a function''),
      [ScanMiddleware ''/proj/server''])"
  by (simp add: u_build_def io_defs writeTypes_def routeTypes_of_def all_middleware_def
      push_route_type_def push_TypeError_def object_prototype_names_def
      constructor_context_def example_context_def example_env_def Let_def)

text \<open>
  C8. An entry whose handler is not a filesystem path contributes nothing to the route
  type map, whatever its route pattern: the outcome of the loop is the one computed
  without the entry.
\<close>

theorem inline_handler_no_route_type:
  assumes "handle mw = HandleInline f"
    and "all_middleware c = xs @ mw # ys" and "all_middleware c' = xs @ ys"
    and "nuxt_buildDir (nuxt c') = nuxt_buildDir (nuxt c)"
  shows "routeTypes_of env c = routeTypes_of env c'"
  using assms by (simp add: routeTypes_of_def collect_skip_inline)

theorem inline_handler_no_route_type_witness:
  "routeTypes_of example_env hello_context =
   routeTypes_of example_env (hello_context\<lparr>middleware := [hello_post]\<rparr>)"
proof -
  have "handle inline_mw = HandleInline 0"
    "all_middleware hello_context = [hello_get] @ inline_mw # [hello_post]"
    "all_middleware (hello_context\<lparr>middleware := [hello_post]\<rparr>) = [hello_get] @ [hello_post]"
    "nuxt_buildDir (nuxt (hello_context\<lparr>middleware := [hello_post]\<rparr>)) = nuxt_buildDir (nuxt hello_context)"
    by (simp_all add: inline_mw_def all_middleware_def hello_context_def example_context_def)
  then show ?thesis
    by (rule inline_handler_no_route_type)
qed

section \<open>Properties of the production build\<close>

lemma io_bind_InrE:
  assumes "io_bind m f tr = (Inr b, tr')"
  obtains a tr1 where "m tr = (Inr a, tr1)" and "f a tr1 = (Inr b, tr')"
  using assms by (auto simp: io_bind_def split: prod.splits sum.splits)

lemma perform_Inr: "perform env e tr = (Inr u, tr') \<Longrightarrow> tr' = tr @ [e]"
  by (auto simp: perform_def split: option.splits)

lemma emit_Inr: "emit e tr = (r, tr') \<Longrightarrow> tr' = tr @ [e]"
  by (auto simp: emit_def)

lemma writeTypes_Inr:
  "writeTypes env c tr = (Inr u, tr') \<Longrightarrow>
   \<exists>rt. routeTypes_of env c = Inr rt \<and>
     tr' = tr @ [WriteFile (types_path env c) (join_with [CHR 0x0A] (declaration_lines rt))]"
  by (auto simp: writeTypes_def io_throw_def split: sum.splits dest: perform_Inr)

lemma rollup_rollup_Inr: "rollup_rollup env rc tr = (Inr u, tr') \<Longrightarrow> tr' = tr @ [RollupRollup rc]"
  by (auto simp: rollup_rollup_def perform_def split: option.splits)

lemma buildInfo_json_scanned [simp]:
  "buildInfo_json env (c\<lparr>scannedMiddleware := m\<rparr>) = buildInfo_json env c"
  by (simp add: buildInfo_json_def rewriteBuildPaths_def cong: option.case_cong)

lemma u_build_success:
  assumes "u_build env c tr = (Inr r, tr')"
  shows "\<exists>rc rt. rollupConfig c = Some rc \<and>
     routeTypes_of env (c\<lparr>scannedMiddleware := scanMiddleware env (nuxt_serverDir (nuxt c))\<rparr>)
       = Inr rt \<and>
     tr' = tr @
       [ScanMiddleware (nuxt_serverDir (nuxt c)),
        WriteFile (types_path env c) (join_with [CHR 0x0A] (declaration_lines rt)),
        ConsolaStart [''Building server...''],
        RollupRollup (rollupConfig c),
        ConsolaStart [''Writing server bundle...''],
        BundleWrite rc,
        WriteFile (nitroConfigPath env c) (buildInfo_json env c),
        ConsolaSuccess [''Server built''],
        PrintFSTree (serverDir (ctx_output c)),
        CallHook ''nitro:compiled''] @ hints env c"
  using assms unfolding u_build_def Let_def
  apply (elim io_bind_InrE)
  apply (auto dest!: perform_Inr emit_Inr writeTypes_Inr rollup_rollup_Inr simp: if_io io_return_def io_throw_def hints_def
      types_path_def nitroConfigPath_def deploy_hint_def rewriteBuildPaths_def rOutDir_def split: option.splits if_splits)
  done


lemma replaceAll_no_occurrence: "\<not> sublist from s \<Longrightarrow> replaceAll s from to = s"
proof (induction s)
  case Nil
  then show ?case by simp
next
  case (Cons c cs)
  from Cons.prems have a: "\<not> prefix from (c # cs)" and b: "\<not> sublist from cs"
    by (simp_all add: sublist_Cons_right)
  from b have "replaceAll cs from to = cs" by (rule Cons.IH)
  with a show ?case
    by simp
qed

lemma replaceAll_first_occurrence:
  assumes "from \<noteq> []"
    and "\<forall>k<length pre. \<not> prefix from (drop k (pre @ from @ post))"
  shows "replaceAll (pre @ from @ post) from to = pre @ to @ replaceAll post from to"
  using assms(2)
proof (induction pre)
  case Nil
  from assms(1) obtain f fs where f: "from = f # fs" by (cases "from") auto
  have "replaceAll ((f # fs) @ post) (f # fs) to =
      to @ replaceAll (drop (length (f # fs)) ((f # fs) @ post)) (f # fs) to"
    by (simp del: drop_append)
  then show ?case by (simp add: f)
next
  case (Cons p ps)
  from Cons.prems have "\<not> prefix from (drop 0 ((p # ps) @ from @ post))"
    by (metis length_greater_0_conv list.distinct(1))
  then have no: "\<not> prefix from (p # ps @ from @ post)" by simp
  have "\<forall>k<length ps. \<not> prefix from (drop k (ps @ from @ post))"
  proof (intro allI impI)
    fix k assume "k < length ps"
    then have "Suc k < length (p # ps)" by simp
    with Cons.prems have "\<not> prefix from (drop (Suc k) ((p # ps) @ from @ post))" by blast
    then show "\<not> prefix from (drop k (ps @ from @ post))" by simp
  qed
  with Cons.IH have "replaceAll (ps @ from @ post) from to = ps @ to @ replaceAll post from to"
    by blast
  with no show ?case by simp
qed

text \<open>
  C4. In a production build that completes, with a deploy command that contains the
  output directory path, the manifest written to \<^verbatim>\<open>nitro.json\<close> in the output
  directory has as its deploy command the configured one with the occurrences of the
  output directory path replaced by \<^verbatim>\<open>.\<close>, and the console shows the hint with
  the occurrences replaced by the output directory path relative to the working
  directory.
\<close>

theorem build_deploy_command_rewritten:
  assumes "fst (u_build env c tr) = Inr r"
    and "deploy (commands c) = Some cmd"
    and "sublist (dir (ctx_output c)) cmd" and "dir (ctx_output c) \<noteq> []"
  shows "WriteFile (resolve env (dir (ctx_output c)) ''nitro.json'')
           (json_object []
             [(''date'', Some (json_quote (new_Date env))),
              (''preset'', Some (json_quote (preset c))),
              (''commands'', Some (json_object ''  ''
                 [(''preview'',
                     map_option json_quote (rewriteBuildPaths c (preview (commands c)) ''.'')),
                  (''deploy'',
                     Some (json_quote (replaceAll cmd (dir (ctx_output c)) ''.'')))]))])
           \<in> set (snd (u_build env c tr)) \<and>
         ConsolaInfo
           [''You can deploy this build using `'' @
            replaceAll cmd (dir (ctx_output c)) (relative env (cwd env) (dir (ctx_output c))) @
            ''`'']
           \<in> set (snd (u_build env c tr))"
proof -
  from assms(1) have "u_build env c tr = (Inr r, snd (u_build env c tr))"
    by (metis prod.collapse)
  from u_build_success [OF this] obtain rc rt where
    tr': "snd (u_build env c tr) = tr @
       [ScanMiddleware (nuxt_serverDir (nuxt c)),
        WriteFile (types_path env c) (join_with [CHR 0x0A] (declaration_lines rt)),
        ConsolaStart [''Building server...''],
        RollupRollup (rollupConfig c),
        ConsolaStart [''Writing server bundle...''],
        BundleWrite rc,
        WriteFile (nitroConfigPath env c) (buildInfo_json env c),
        ConsolaSuccess [''Server built''],
        PrintFSTree (serverDir (ctx_output c)),
        CallHook ''nitro:compiled''] @ hints env c"
    by blast
  from assms(3,4) have "cmd \<noteq> []" by auto
  with assms(2) have h: "ConsolaInfo [deploy_hint env c] \<in> set (hints env c)"
    by (simp add: hints_def truthy_def)
  have m: "WriteFile (nitroConfigPath env c) (buildInfo_json env c) \<in> set (snd (u_build env c tr))"
    unfolding tr' by simp
  from h have "ConsolaInfo [deploy_hint env c] \<in> set (snd (u_build env c tr))"
    unfolding tr' by simp
  with m assms(2) show ?thesis
    by (simp add: nitroConfigPath_def buildInfo_json_def deploy_hint_def rewriteBuildPaths_def
        rOutDir_def interpolate_def)
qed

lemma deploy_context_runs:
  "fst (u_build example_env deploy_context []) =
     Inr (deploy_context\<lparr>scannedMiddleware := []\<rparr>, ''/proj/.output/server/index.mjs'')"
  by (simp add: u_build_def deploy_context_def example_context_def example_env_def io_defs
      writeTypes_def routeTypes_of_def all_middleware_def rollup_rollup_def truthy_def Let_def)

theorem build_deploy_command_rewritten_witness:
  "WriteFile ''/proj/.output/nitro.json''
     (''{'' @ [CHR 0x0A] @
      ''  '' @ [CHR 0x22] @ ''date'' @ [CHR 0x22] @ '': '' @
        [CHR 0x22] @ ''2022-02-01T00:00:00.000Z'' @ [CHR 0x22] @ '','' @ [CHR 0x0A] @
      ''  '' @ [CHR 0x22] @ ''preset'' @ [CHR 0x22] @ '': '' @
        [CHR 0x22] @ ''server'' @ [CHR 0x22] @ '','' @ [CHR 0x0A] @
      ''  '' @ [CHR 0x22] @ ''commands'' @ [CHR 0x22] @ '': {'' @ [CHR 0x0A] @
      ''    '' @ [CHR 0x22] @ ''deploy'' @ [CHR 0x22] @ '': '' @
        [CHR 0x22] @ ''cd . && deploy .'' @ [CHR 0x22] @ [CHR 0x0A] @
      ''  }'' @ [CHR 0x0A] @
      ''}'')
     \<in> set (snd (u_build example_env deploy_context [])) \<and>
   ConsolaInfo [''You can deploy this build using `cd .output && deploy .output`'']
     \<in> set (snd (u_build example_env deploy_context []))"
proof -
  have d: "deploy (commands deploy_context) = Some ''cd /proj/.output && deploy /proj/.output''"
    and o: "dir (ctx_output deploy_context) = ''/proj/.output''"
    and p: "preview (commands deploy_context) = None"
    and s: "preset deploy_context = ''server''"
    by (simp_all add: deploy_context_def example_context_def)
  have sub: "sublist (dir (ctx_output deploy_context)) ''cd /proj/.output && deploy /proj/.output''"
    unfolding o by code_simp
  have ne: "dir (ctx_output deploy_context) \<noteq> []"
    by (simp add: o)
  have e: "resolve example_env = (\<lambda>a b. a @ ''/'' @ b)"
    "new_Date example_env = ''2022-02-01T00:00:00.000Z''"
    "relative example_env (cwd example_env) ''/proj/.output'' = ''.output''"
    by (simp_all add: example_env_def example_relative_def Let_def)
  from build_deploy_command_rewritten [OF deploy_context_runs d sub ne]
  show ?thesis
    by (simp add: o p s e json_object_def json_property_def json_quote_def json_escape_def
        rewriteBuildPaths_def)
qed

text \<open>
  C7. In a production build with neither a preview nor a deploy command, no hint is
  printed, and the manifest written by a build that completes has an empty
  \<^verbatim>\<open>commands\<close> object: neither field is present.
\<close>

theorem build_without_commands:
  assumes "preview (commands c) = None" and "deploy (commands c) = None"
  shows "(\<forall>m. ConsolaInfo m \<notin> set (snd (u_build env c []))) \<and>
         (\<forall>r. fst (u_build env c []) = Inr r \<longrightarrow>
            WriteFile (resolve env (dir (ctx_output c)) ''nitro.json'')
              (''{'' @ [CHR 0x0A] @
               ''  '' @ json_quote ''date'' @ '': '' @ json_quote (new_Date env) @ '','' @ [CHR 0x0A] @
               ''  '' @ json_quote ''preset'' @ '': '' @ json_quote (preset c) @ '','' @ [CHR 0x0A] @
               ''  '' @ json_quote ''commands'' @ '': {}'' @ [CHR 0x0A] @
               ''}'')
              \<in> set (snd (u_build env c [])))"
proof (intro conjI allI impI)
  fix m
  show "ConsolaInfo m \<notin> set (snd (u_build env c []))"
  proof (cases "routeTypes_of env
      (c\<lparr>scannedMiddleware := scanMiddleware env (nuxt_serverDir (nuxt c))\<rparr>)")
    case (Inl e)
    with assms show ?thesis
      by (auto simp: u_build_def Let_def io_defs if_io writeTypes_def rollup_rollup_def
          truthy_def split: option.splits error.splits)
  next
    case (Inr rt)
    with assms show ?thesis
      by (auto simp: u_build_def Let_def io_defs if_io writeTypes_def rollup_rollup_def
          truthy_def split: option.splits error.splits)
  qed
next
  fix r assume "fst (u_build env c []) = Inr r"
  then have "u_build env c [] = (Inr r, snd (u_build env c []))"
    by (metis prod.collapse)
  from u_build_success [OF this]
  have "WriteFile (nitroConfigPath env c) (buildInfo_json env c) \<in> set (snd (u_build env c []))"
    by auto
  moreover have "buildInfo_json env c =
     ''{'' @ [CHR 0x0A] @
     ''  '' @ json_quote ''date'' @ '': '' @ json_quote (new_Date env) @ '','' @ [CHR 0x0A] @
     ''  '' @ json_quote ''preset'' @ '': '' @ json_quote (preset c) @ '','' @ [CHR 0x0A] @
     ''  '' @ json_quote ''commands'' @ '': {}'' @ [CHR 0x0A] @
     ''}''"
    using assms
    by (simp add: buildInfo_json_def json_object_def json_property_def rewriteBuildPaths_def)
  ultimately show "WriteFile (resolve env (dir (ctx_output c)) ''nitro.json'')
              (''{'' @ [CHR 0x0A] @
               ''  '' @ json_quote ''date'' @ '': '' @ json_quote (new_Date env) @ '','' @ [CHR 0x0A] @
               ''  '' @ json_quote ''preset'' @ '': '' @ json_quote (preset c) @ '','' @ [CHR 0x0A] @
               ''  '' @ json_quote ''commands'' @ '': {}'' @ [CHR 0x0A] @
               ''}'')
              \<in> set (snd (u_build env c []))"
    by (simp add: nitroConfigPath_def)
qed

lemma plain_context_runs:
  "fst (u_build example_env plain_context []) =
     Inr (plain_context\<lparr>scannedMiddleware := []\<rparr>, ''/proj/.output/server/index.mjs'')"
  by (simp add: u_build_def plain_context_def example_context_def example_env_def io_defs
      writeTypes_def routeTypes_of_def all_middleware_def rollup_rollup_def truthy_def Let_def)

theorem build_without_commands_witness:
  "ConsolaInfo [''You can preview this build using `nuxi preview`'']
     \<notin> set (snd (u_build example_env plain_context [])) \<and>
   WriteFile ''/proj/.output/nitro.json''
     (''{'' @ [CHR 0x0A] @
      ''  '' @ [CHR 0x22] @ ''date'' @ [CHR 0x22] @ '': '' @
        [CHR 0x22] @ ''2022-02-01T00:00:00.000Z'' @ [CHR 0x22] @ '','' @ [CHR 0x0A] @
      ''  '' @ [CHR 0x22] @ ''preset'' @ [CHR 0x22] @ '': '' @
        [CHR 0x22] @ ''server'' @ [CHR 0x22] @ '','' @ [CHR 0x0A] @
      ''  '' @ [CHR 0x22] @ ''commands'' @ [CHR 0x22] @ '': {}'' @ [CHR 0x0A] @
      ''}'')
     \<in> set (snd (u_build example_env plain_context []))"
proof -
  have c: "preview (commands plain_context) = None" "deploy (commands plain_context) = None"
    and o: "dir (ctx_output plain_context) = ''/proj/.output''"
    and s: "preset plain_context = ''server''"
    by (simp_all add: plain_context_def example_context_def)
  have e: "resolve example_env = (\<lambda>a b. a @ ''/'' @ b)"
    "new_Date example_env = ''2022-02-01T00:00:00.000Z''"
    by (simp_all add: example_env_def)
  from build_without_commands [OF c, of example_env] plain_context_runs
  show ?thesis
    by (simp add: o s e json_quote_def json_escape_def)
qed

section \<open>Properties of the template writer\<close>

text \<open>
  C6, as amended. In a run of the template writer in which no call fails and the
  document hook leaves the destination of the template record as it is, the compiled
  template is written, as the last call, to the source path with its final
  \<^verbatim>\<open>html\<close> and the character before it replaced by \<^verbatim>\<open>.mjs\<close> and then the first
  \<^verbatim>\<open>app.template.mjs\<close> in it replaced by \<^verbatim>\<open>document.template.mjs\<close>.
\<close>

theorem compile_template_destination:
  assumes "fst (compile_template env c tr) = Inr ()"
    and "\<forall>t. dst (document_hook env t) = dst t"
  shows "\<exists>text. snd (compile_template env c tr) \<noteq> [] \<and>
           last (snd (compile_template env c tr)) =
             WriteFile
               (replace_first ''app.template.mjs'' ''document.template.mjs''
                  (replace_html_ext (htmlSrc env c)))
               text"
  using assms
  by (auto simp: compile_template_def template_contents_def htmlDst_def io_defs
      split: option.splits if_splits)

text \<open>
  A source path that ends in \<^verbatim>\<open>app.template.html\<close>, with no earlier
  \<^verbatim>\<open>app.template.mjs\<close> in it, is sent to the same path ending in
  \<^verbatim>\<open>document.template.mjs\<close>.
\<close>

lemma replace_first_occurrence:
  assumes "\<forall>k<length pre. \<not> prefix pat (drop k (pre @ pat @ post))"
  shows "replace_first pat rep (pre @ pat @ post) = pre @ rep @ post"
  using assms
proof (induction pre)
  case Nil
  show ?case
  proof (cases pat)
    case Nil
    then show ?thesis by (cases post) simp_all
  next
    case (Cons f fs)
    then show ?thesis by simp
  qed
next
  case (Cons p ps)
  from Cons.prems have "\<not> prefix pat (drop 0 ((p # ps) @ pat @ post))"
    by (metis length_greater_0_conv list.distinct(1))
  then have no: "\<not> prefix pat (p # ps @ pat @ post)" by simp
  have "\<forall>k<length ps. \<not> prefix pat (drop k (ps @ pat @ post))"
  proof (intro allI impI)
    fix k assume "k < length ps"
    then have "Suc k < length (p # ps)" by simp
    with Cons.prems have "\<not> prefix pat (drop (Suc k) ((p # ps) @ pat @ post))" by blast
    then show "\<not> prefix pat (drop k (ps @ pat @ post))" by simp
  qed
  with Cons.IH have "replace_first pat rep (ps @ pat @ post) = ps @ rep @ post"
    by blast
  with no show ?case by simp
qed

lemma replace_html_ext_app: "replace_html_ext (d @ ''app.template.html'') = d @ ''app.template.mjs''"
  by (simp add: replace_html_ext_def nth_append)

lemma htmlDst_app_template:
  assumes "\<forall>k<length d. \<not> prefix ''app.template.mjs'' (drop k (d @ ''app.template.mjs''))"
  shows "htmlDst (d @ ''app.template.html'') = d @ ''document.template.mjs''"
  using replace_first_occurrence [of d "''app.template.mjs''" "[]" "''document.template.mjs''"] assms
  by (simp add: htmlDst_def replace_html_ext_app)

theorem compile_template_destination_witness:
  "last (snd (compile_template example_env plain_context [])) =
     WriteFile ''/proj/.nuxt/views/document.template.mjs'' ''export default <html></html>''"
proof -
  have a: "fst (compile_template example_env plain_context []) = Inr ()"
    by (simp add: compile_template_def template_contents_def io_defs example_env_def
        plain_context_def example_context_def)
  have b: "\<forall>t. dst (document_hook example_env t) = dst t"
    by (simp add: example_env_def)
  have c: "replace_first ''app.template.mjs'' ''document.template.mjs''
             (replace_html_ext (htmlSrc example_env plain_context)) =
           ''/proj/.nuxt/views/document.template.mjs''"
    by (simp add: htmlSrc_def example_env_def plain_context_def example_context_def
        replace_html_ext_def)
  have d: "\<And>p t. last (snd (compile_template example_env plain_context [])) = WriteFile p t \<Longrightarrow>
      t = ''export default <html></html>''"
    by (simp add: compile_template_def template_contents_def io_defs example_env_def
        plain_context_def example_context_def)
  from compile_template_destination [OF a b] show ?thesis
    unfolding c using d by auto
qed

text \<open>
  C6 as stated fails: the template \<^verbatim>\<open>views/app.template.html\<close> is compiled to
  \<^verbatim>\<open>views/document.template.mjs\<close>, which is not the source path with its extension
  replaced.
\<close>

theorem compile_template_counterexample:
  "htmlSrc example_env plain_context = ''/proj/.nuxt/views/app.template.html'' \<and>
   extension_substituted ''/proj/.nuxt/views/app.template.html'' =
     ''/proj/.nuxt/views/app.template.mjs'' \<and>
   snd (compile_template example_env plain_context []) =
     [ReadFile ''/proj/.nuxt/views/app.template.html'',
      CallHook ''nitro:document'',
      WriteFile ''/proj/.nuxt/views/document.template.mjs'' ''export default <html></html>'']"
  by (simp add: compile_template_def template_contents_def io_defs example_env_def
      plain_context_def example_context_def htmlSrc_def htmlDst_def replace_html_ext_def
      extension_substituted_def)

section \<open>Properties of watch mode\<close>

lemma watchers_created_append:
  "watchers_created (xs @ ys) = watchers_created xs + watchers_created ys"
  by (induction xs rule: watchers_created.induct) auto

lemma live_watchers_append:
  "live_watchers (xs @ ys) l = live_watchers ys (live_watchers xs l)"
  by (induction xs l rule: live_watchers.induct) auto




text \<open>
  C9. An \<^verbatim>\<open>ERROR\<close> event is logged and changes nothing else: the state of the
  session, its watcher included, is the same, the only call made is the one to
  \<^verbatim>\<open>consola.error\<close>, and the live watch sessions and the number of sessions created
  are as before.
\<close>

theorem watcher_error_keeps_watching:
  "watch_step env (WatcherEvent now (ERROR e)) (st, tr) =
     (st, tr @ [ConsolaError [''Rollup error: '' @ e]]) \<and>
   live_watchers (tr @ [ConsolaError [''Rollup error: '' @ e]]) [] = live_watchers tr [] \<and>
   watchers_created (tr @ [ConsolaError [''Rollup error: '' @ e]]) = watchers_created tr"
  by (simp add: live_watchers_append watchers_created_append)

lemma removeAll_only: "set xs \<subseteq> {w} \<Longrightarrow> removeAll w xs = []"
  by (induction xs) auto

lemma session_invariant_now:
  "session_invariant st tr \<Longrightarrow> length (live_watchers tr []) \<le> 1"
  by (simp add: session_invariant_def list_all_iff)

lemma on_watcher_event_invariant:
  assumes "session_invariant st tr"
  shows "session_invariant (fst (on_watcher_event env now ev st tr))
           (snd (on_watcher_event env now ev st tr))"
  using assms session_invariant_now [OF assms]
  by (cases ev) (auto simp: session_invariant_def prefixes_append live_watchers_append)

lemma on_scan_event_invariant:
  assumes "session_invariant st tr"
  shows "session_invariant (fst (on_scan_event env mws event st tr))
           (snd (on_scan_event env mws event st tr))"
proof (cases "event = ''add'' \<or> event = ''addDir''")
  case True
  from assms have "removeAll (ws_watcher st) (live_watchers tr []) = []"
    by (simp add: session_invariant_def removeAll_only)
  with assms True show ?thesis
    by (auto simp: on_scan_event_def Let_def startRollupWatcher_def writeTypes_def perform_def
        io_throw_def rejection_logged_def session_invariant_def prefixes_append
        live_watchers_append split: option.splits sum.splits error.splits)
next
  case False
  with assms show ?thesis
    by (auto simp: on_scan_event_def session_invariant_def)
qed

lemma watch_step_invariant:
  "session_invariant (fst c) (snd c) \<Longrightarrow>
   session_invariant (fst (watch_step env i c)) (snd (watch_step env i c))"
  by (cases c; cases i) (simp_all add: on_watcher_event_invariant on_scan_event_invariant)

lemma watch_run_invariant:
  "session_invariant (fst c) (snd c) \<Longrightarrow>
   session_invariant (fst (watch_run env is c)) (snd (watch_run env is c))"
  by (induction "is" arbitrary: c) (simp_all add: watch_step_invariant)

lemma u_watch_invariant:
  "u_watch env c [] = (Inr st, tr) \<Longrightarrow> session_invariant st tr"
  by (auto simp: u_watch_def Let_def startRollupWatcher_def writeTypes_def io_defs
      session_invariant_def split: option.splits sum.splits)

lemma u_watch_failed:
  "u_watch env c [] = (Inl e, tr) \<Longrightarrow> prefix p tr \<Longrightarrow> length (live_watchers p []) \<le> 1"
  by (auto simp: u_watch_def Let_def startRollupWatcher_def writeTypes_def io_defs
      prefix_Cons split: option.splits sum.splits)

text \<open>
  C5. At every point of a watch session, that is after every prefix of its trace, at
  most one bundler watch session is live: a new watcher is created only after the
  previous one has been closed.
\<close>

theorem at_most_one_live_watcher:
  assumes "prefix p (watch_session env c inputs)"
  shows "length (live_watchers p []) \<le> 1"
proof (cases "u_watch env c []")
  case (Pair r tr)
  show ?thesis
  proof (cases r)
    case (Inl e)
    with Pair have "u_watch env c [] = (Inl e, tr)" and "watch_session env c inputs = tr"
      by (simp_all add: watch_session_def)
    with assms show ?thesis
      using u_watch_failed by metis
  next
    case (Inr st)
    with Pair have "session_invariant st tr"
      by (simp add: u_watch_invariant)
    then have "session_invariant (fst (watch_run env inputs (st, tr)))
        (snd (watch_run env inputs (st, tr)))"
      using watch_run_invariant [of "(st, tr)"] by simp
    then have "list_all (\<lambda>p. length (live_watchers p []) \<le> 1)
        (prefixes (watch_session env c inputs))"
      using Pair Inr by (simp add: watch_session_def session_invariant_def)
    with assms show ?thesis
      by (simp add: list_all_iff)
  qed
qed

theorem at_most_one_live_watcher_witness:
  "prefix [RollupWatch 0] (watch_session example_env plain_context watch_inputs) \<and>
   length (live_watchers [RollupWatch 0] []) \<le> 1 \<and>
   length (live_watchers (watch_session example_env plain_context watch_inputs) []) \<le> 1"
proof -
  have a: "prefix [RollupWatch 0] (watch_session example_env plain_context watch_inputs)"
    by (simp add: watch_session_def u_watch_def startRollupWatcher_def Let_def io_defs
        writeTypes_def routeTypes_of_def all_middleware_def plain_context_def
        example_context_def example_env_def watch_inputs_def on_scan_event_def
        rejection_logged_def hello_get_def hello_post_def push_route_type_def
        object_prototype_names_def)
  from a at_most_one_live_watcher [OF a]
    at_most_one_live_watcher [of "watch_session example_env plain_context watch_inputs"
      example_env plain_context watch_inputs]
  show ?thesis by simp
qed

end
